theory Spec2Isabelle
  imports Main
begin

section \<open>Strings\<close>

text \<open>
  A Python \<open>str\<close> is modelled as a \<^typ>\<open>string\<close> whose characters are the code points
  U+0000 .. U+00FF. On these code points the three tables below agree with Python 3:
  \<open>str.lower\<close>, the class \<open>\w\<close> of the \<open>re\<close> module and the white space that
  \<open>str.strip\<close> removes. Code points from U+0100 on are not representable.
\<close>

definition lower_char :: "char \<Rightarrow> char" where
  "lower_char c =
     (let n = (of_char c :: nat)
      in if (65 \<le> n \<and> n \<le> 90) \<or> (192 \<le> n \<and> n \<le> 222 \<and> n \<noteq> 215)
         then char_of (n + 32) else c)"

definition lower :: "string \<Rightarrow> string" where
  "lower s = map lower_char s"

text \<open>\<open>str.upper\<close> is only applied to keys of \<open>COLOR_MAP\<close>, which are ASCII letters.\<close>

definition upper_char :: "char \<Rightarrow> char" where
  "upper_char c =
     (let n = (of_char c :: nat)
      in if 97 \<le> n \<and> n \<le> 122 then char_of (n - 32) else c)"

definition upper :: "string \<Rightarrow> string" where
  "upper s = map upper_char s"

definition is_word :: "char \<Rightarrow> bool" where
  "is_word c =
     (let n = (of_char c :: nat)
      in (48 \<le> n \<and> n \<le> 57) \<or> (65 \<le> n \<and> n \<le> 90) \<or> n = 95 \<or> (97 \<le> n \<and> n \<le> 122)
         \<or> n = 170 \<or> n = 178 \<or> n = 179 \<or> n = 181 \<or> n = 185 \<or> n = 186
         \<or> (188 \<le> n \<and> n \<le> 190) \<or> (192 \<le> n \<and> n \<le> 214) \<or> (216 \<le> n \<and> n \<le> 246)
         \<or> 248 \<le> n)"

definition is_space :: "char \<Rightarrow> bool" where
  "is_space c =
     (let n = (of_char c :: nat)
      in (9 \<le> n \<and> n \<le> 13) \<or> (28 \<le> n \<and> n \<le> 32) \<or> n = 133 \<or> n = 160)"

definition strip :: "string \<Rightarrow> string" where
  "strip s = rev (dropWhile is_space (rev (dropWhile is_space s)))"

fun join :: "string \<Rightarrow> string list \<Rightarrow> string" where
  "join sep [] = []"
| "join sep [x] = x"
| "join sep (x # y # ys) = x @ sep @ join sep (y # ys)"

section \<open>Regular expressions\<close>

text \<open>
  The patterns of \<open>COMMAND_PATTERNS\<close> use four constructs only: a literal character, an
  optional literal (\<open>'?\<close>, \<open>s?\<close>, \<open>(?:color )?\<close>), the capturing group \<open>(\w+)\<close> and
  concatenation. A pattern is the list of its items.
\<close>

datatype item = Lit char | OptLit string | WordGroup

type_synonym pattern = "item list"

definition lits :: "string \<Rightarrow> pattern" where
  "lits s = map Lit s"

text \<open>A match object; \<open>group1\<close> is \<open>match.group(1)\<close>, \<open>None\<close> when the group took no part.\<close>

datatype match = Match (group1: "string option")

text \<open>With \<open>re.IGNORECASE\<close> a literal matches a character that lowers to the same character.\<close>

definition lit_eq :: "char \<Rightarrow> char \<Rightarrow> bool" where
  "lit_eq p c = (lower_char c = lower_char p)"

fun strip_lit :: "string \<Rightarrow> string \<Rightarrow> string option" where
  "strip_lit [] s = Some s"
| "strip_lit (p # ps) [] = None"
| "strip_lit (p # ps) (c # cs) = (if lit_eq p c then strip_lit ps cs else None)"

fun first_some :: "'a option list \<Rightarrow> 'a option" where
  "first_some [] = None"
| "first_some (None # xs) = first_some xs"
| "first_some (Some x # xs) = Some x"

text \<open>
  \<open>match_here\<close> is the backtracking matcher anchored at the start of \<open>s\<close>: an optional
  literal is tried present first, then absent; \<open>\w+\<close> is tried longest first, down to one
  character. \<open>g\<close> is the text captured so far.
\<close>

fun match_here :: "pattern \<Rightarrow> string \<Rightarrow> string option \<Rightarrow> match option" where
  "match_here [] s g = Some (Match g)"
| "match_here (Lit p # ps) s g =
     (case s of
        [] \<Rightarrow> None
      | c # cs \<Rightarrow> if lit_eq p c then match_here ps cs g else None)"
| "match_here (OptLit w # ps) s g =
     (case strip_lit w s of
        None \<Rightarrow> match_here ps s g
      | Some rest \<Rightarrow>
          (case match_here ps rest g of
             Some m \<Rightarrow> Some m
           | None \<Rightarrow> match_here ps s g))"
| "match_here (WordGroup # ps) s g =
     first_some (map (\<lambda>n. match_here ps (drop n s) (Some (take n s)))
                     (rev [1 ..< Suc (length (takeWhile is_word s))]))"

text \<open>\<open>re.search\<close>: the first position, from the left, at which the pattern matches.\<close>

fun re_search :: "pattern \<Rightarrow> string \<Rightarrow> match option" where
  "re_search p [] = match_here p [] None"
| "re_search p (c # cs) =
     (case match_here p (c # cs) None of
        Some m \<Rightarrow> Some m
      | None \<Rightarrow> re_search p cs)"

section \<open>The tables of the program\<close>

text \<open>\<open>COLOR_MAP\<close>, in the order of the source (a Python dict keeps insertion order).\<close>

definition COLOR_MAP :: "(string \<times> int list) list" where
  "COLOR_MAP =
     [(''red'',    [38000, 9000, 4500, 562, 562, 1687, 562]),
      (''blue'',   [38000, 9000, 4500, 562, 1687, 562, 562]),
      (''green'',  [38000, 9000, 4500, 1687, 562, 562, 562]),
      (''white'',  [38000, 9000, 4500, 562, 562, 562, 1687]),
      (''yellow'', [38000, 9000, 4500, 1687, 562, 1687, 562]),
      (''purple'', [38000, 9000, 4500, 562, 1687, 1687, 1687]),
      (''orange'', [38000, 9000, 4500, 1687, 1687, 562, 562]),
      (''pink'',   [38000, 9000, 4500, 1687, 562, 562, 1687])]"

text \<open>\<open>COMMAND_PATTERNS\<close>: a dict from the group name to the list of its patterns.\<close>

definition COMMAND_PATTERNS :: "(string \<times> pattern list) list" where
  "COMMAND_PATTERNS =
     [(''on'',
         [lits ''daddy'' @ [OptLit [CHR 0x27]] @ lits ''s home'',
          lits ''turn on'',
          lits ''light'' @ [OptLit ''s''] @ lits '' on'',
          lits ''power on'']),
      (''off'',
         [lits ''turn off'',
          lits ''light'' @ [OptLit ''s''] @ lits '' off'',
          lits ''power off'',
          lits ''shut off'']),
      (''color'',
         [lits ''change to '' @ [WordGroup],
          lits ''set '' @ [OptLit ''color ''] @ lits ''to '' @ [WordGroup],
          lits ''make it '' @ [WordGroup],
          lits ''switch to '' @ [WordGroup]])]"

section \<open>The platform and the application state\<close>

text \<open>An exception is the text that \<open>str(e)\<close> gives.\<close>

datatype exn = Exception string

definition str_exn :: "exn \<Rightarrow> string" where
  "str_exn e = (case e of Exception m \<Rightarrow> m)"

definition IndexError :: exn where
  "IndexError = Exception ''list index out of range''"

definition KeyError :: "string \<Rightarrow> exn" where
  "KeyError k = Exception ([CHR 0x27] @ k @ [CHR 0x27])"

definition AttributeError :: exn where
  "AttributeError =
     Exception ([CHR 0x27] @ ''NoneType'' @ [CHR 0x27] @ '' object has no attribute ''
                @ [CHR 0x27] @ ''lower'' @ [CHR 0x27])"

text \<open>
  The Java objects the program holds. Each call into Java either returns or raises, as the
  platform decides: the object carries the outcome of each of its methods.
\<close>

record ir_service =
  hasIrEmitter :: "exn + bool"
  transmit :: "int \<Rightarrow> int list \<Rightarrow> exn option"

record recognizer =
  destroy :: "exn option"

text \<open>
  The platform: \<open>android\<close> is \<open>platform == 'android'\<close>; \<open>getSystemService\<close> is the
  outcome of looking up the infrared service (\<open>None\<close> is Java's null);
  \<open>createSpeechRecognizer\<close> is the outcome of creating the recognizer and
  \<open>startListening\<close> that of the calls from \<open>setRecognitionListener\<close> to
  \<open>recognizer.startListening(intent)\<close>.
\<close>

record platform =
  android :: bool
  getSystemService :: "exn + ir_service option"
  createSpeechRecognizer :: "exn + recognizer"
  startListening :: "exn option"

text \<open>The result bundle of the recognizer: the outcome of \<open>getStringArrayList\<close>.\<close>

datatype results = Bundle (getStringArrayList: "exn + string list option")

text \<open>The callbacks handed to \<open>Clock.schedule_once\<close>.\<close>

datatype callback = Listening_timeout_callback | Animate_progress | Stop_listening

text \<open>
  Texts shown in the user interface may start with a pictograph, which is followed by a
  space. Colours are RGBA tuples in tenths: \<open>(2, 8, 2, 10)\<close> is \<open>(0.2, 0.8, 0.2, 1)\<close>.
\<close>

datatype emoji = Microphone | Red_circle | Check_mark | Cross_mark

datatype ui_text = Text string | Emoji emoji string

type_synonym rgba = "nat \<times> nat \<times> nat \<times> nat"

text \<open>
  Everything the program does to the outside, in the order in which it does it: log lines,
  assignments to widget properties, infrared transmissions, recognizer sessions and timers.
  \<open>Info_label keys c\<close> is the info panel rendered with the joined keys of \<open>COLOR_MAP\<close> and
  the current colour \<open>c\<close>. Delays are in milliseconds.
\<close>

datatype event =
    Log_info string
  | Log_error string
  | Status_label ui_text rgba
  | Info_label string string
  | Control_btn ui_text rgba
  | Control_btn_disabled
  | Progress_opacity nat
  | Progress_value nat
  | Transmit int "int list"
  | Recognizer_started
  | Recognizer_destroyed
  | Scheduled nat callback nat
  | Cancelled nat

text \<open>
  The attributes of \<open>SmartLightControlApp\<close>, the value of the progress bar (the one
  widget property the program reads back), the pending events of the Kivy clock
  (identifier, callback, delay) and the trace of events so far.
\<close>

record app =
  ir_manager :: "ir_service option"
  recognizer :: "recognizer option"
  is_listening :: bool
  listening_timeout :: "nat option"
  current_color :: string
  progress_value :: nat
  clock :: "(nat \<times> callback \<times> nat) list"
  next_event :: nat
  trace :: "event list"

text \<open>The state after \<open>__init__\<close> and \<open>build\<close>.\<close>

definition init :: app where
  "init = \<lparr> ir_manager = None, recognizer = None, is_listening = False,
            listening_timeout = None, current_color = ''white'', progress_value = 0,
            clock = [], next_event = 0, trace = [] \<rparr>"

text \<open>The outcome of a \<open>try\<close> body: it returns or it raises, in the state reached.\<close>

datatype 'a outcome = Return 'a app | Raise exn app

definition emit :: "event \<Rightarrow> app \<Rightarrow> app" where
  "emit e st = st\<lparr>trace := trace st @ [e]\<rparr>"

definition schedule_once :: "callback \<Rightarrow> nat \<Rightarrow> app \<Rightarrow> nat \<times> app" where
  "schedule_once cb delay st =
     (let n = next_event st
      in (n, emit (Scheduled n cb delay)
               (st\<lparr>clock := clock st @ [(n, cb, delay)], next_event := Suc n\<rparr>)))"

definition cancel :: "nat \<Rightarrow> app \<Rightarrow> app" where
  "cancel n st = emit (Cancelled n) (st\<lparr>clock := filter (\<lambda>ev. fst ev \<noteq> n) (clock st)\<rparr>)"

section \<open>Messages\<close>

text \<open>
  Assignments to widget properties and calls of the logger and of the Kivy clock are taken
  to succeed; the calls into Java are the ones that may raise.
\<close>

definition show_status :: "ui_text \<Rightarrow> app \<Rightarrow> app" where
  "show_status message st = emit (Status_label message (10, 10, 10, 10)) st"

definition show_success :: "ui_text \<Rightarrow> app \<Rightarrow> app" where
  "show_success message st = emit (Status_label message (2, 8, 2, 10)) st"

definition show_error :: "string \<Rightarrow> app \<Rightarrow> app" where
  "show_error message st =
     emit (Log_error message) (emit (Status_label (Emoji Cross_mark message) (9, 2, 2, 10)) st)"

definition update_info_panel :: "app \<Rightarrow> app" where
  "update_info_panel st =
     emit (Info_label (join '', '' (map fst COLOR_MAP)) (current_color st)) st"

section \<open>Sending an infrared code\<close>

definition send_ir_code_try :: "platform \<Rightarrow> int list \<Rightarrow> string \<Rightarrow> app \<Rightarrow> unit outcome" where
  "send_ir_code_try env pattern action_text st =
     (if \<not> android env
      then Return () (show_status (Text (''[Desktop Mode] '' @ action_text)) st)
      else case ir_manager st of
        None \<Rightarrow> Return () (show_error ''IR manager not available'' st)
      | Some m \<Rightarrow>
          (case hasIrEmitter m of
             Inl e \<Rightarrow> Raise e st
           | Inr b \<Rightarrow>
               if \<not> b then Return () (show_error ''No IR emitter found'' st)
               else (case pattern of
                  [] \<Rightarrow> Raise IndexError st
                | frequency # signal_pattern \<Rightarrow>
                    (case transmit m frequency signal_pattern of
                       Some e \<Rightarrow> Raise e st
                     | None \<Rightarrow>
                         Return ()
                           (emit (Log_info (''IR signal sent: '' @ action_text))
                              (show_success (Emoji Check_mark action_text)
                                 (emit (Transmit frequency signal_pattern) st)))))))"

definition send_ir_code :: "platform \<Rightarrow> int list \<Rightarrow> string \<Rightarrow> app \<Rightarrow> app" where
  "send_ir_code env pattern action_text st =
     (case send_ir_code_try env pattern action_text st of
        Return _ st' \<Rightarrow> st'
      | Raise e st' \<Rightarrow>
          show_error (''Failed to send IR signal: '' @ str_exn e)
            (emit (Log_error (''IR transmission error: '' @ str_exn e)) st'))"

section \<open>Executing a command\<close>

text \<open>The two list literals that \<open>execute_command\<close> passes for ON and for OFF.\<close>

definition on_code :: "int list" where
  "on_code = [38000, 9000, 4500, 562, 562, 562, 562]"

definition off_code :: "int list" where
  "off_code = [38000, 9000, 4500, 562, 1687, 1687, 562]"

text \<open>
  Each \<open>for\<close> loop of \<open>execute_command\<close> either leaves the function (\<open>Some\<close> of the
  outcome) or runs to its end (\<open>None\<close>).
\<close>

fun for_on :: "platform \<Rightarrow> string \<Rightarrow> pattern list \<Rightarrow> app \<Rightarrow> bool outcome option" where
  "for_on env command [] st = None"
| "for_on env command (pattern # rest) st =
     (if re_search pattern command \<noteq> None
      then Some (Return True (send_ir_code env on_code ''Turning lights ON'' st))
      else for_on env command rest st)"

fun for_off :: "platform \<Rightarrow> string \<Rightarrow> pattern list \<Rightarrow> app \<Rightarrow> bool outcome option" where
  "for_off env command [] st = None"
| "for_off env command (pattern # rest) st =
     (if re_search pattern command \<noteq> None
      then Some (Return True (send_ir_code env off_code ''Turning lights OFF'' st))
      else for_off env command rest st)"

definition not_available :: "string \<Rightarrow> ui_text" where
  "not_available color =
     Text (''Color '' @ [CHR 0x27] @ color @ [CHR 0x27] @ '' not available. Try: ''
           @ join '', '' (map fst COLOR_MAP))"

fun for_color :: "platform \<Rightarrow> string \<Rightarrow> pattern list \<Rightarrow> app \<Rightarrow> bool outcome option" where
  "for_color env command [] st = None"
| "for_color env command (pattern # rest) st =
     (case re_search pattern command of
        None \<Rightarrow> for_color env command rest st
      | Some m \<Rightarrow>
          (case group1 m of
             None \<Rightarrow> Some (Raise AttributeError st)
           | Some g \<Rightarrow>
               (let color = lower g
                in case map_of COLOR_MAP color of
                     Some code \<Rightarrow>
                       Some (Return True
                         (send_ir_code env code (''Changing to '' @ upper color)
                            (update_info_panel (st\<lparr>current_color := color\<rparr>))))
                   | None \<Rightarrow> Some (Return False (show_status (not_available color) st)))))"

definition execute_command_try :: "platform \<Rightarrow> string \<Rightarrow> app \<Rightarrow> bool outcome" where
  "execute_command_try env command st =
     (case map_of COMMAND_PATTERNS ''on'' of
        None \<Rightarrow> Raise (KeyError ''on'') st
      | Some on_patterns \<Rightarrow>
     (case for_on env command on_patterns st of
        Some r \<Rightarrow> r
      | None \<Rightarrow>
     (case map_of COMMAND_PATTERNS ''off'' of
        None \<Rightarrow> Raise (KeyError ''off'') st
      | Some off_patterns \<Rightarrow>
     (case for_off env command off_patterns st of
        Some r \<Rightarrow> r
      | None \<Rightarrow>
     (case map_of COMMAND_PATTERNS ''color'' of
        None \<Rightarrow> Raise (KeyError ''color'') st
      | Some color_patterns \<Rightarrow>
     (case for_color env command color_patterns st of
        Some r \<Rightarrow> r
      | None \<Rightarrow> Return False st))))))"

definition execute_command_except :: "exn \<Rightarrow> app \<Rightarrow> bool \<times> app" where
  "execute_command_except e st =
     (False, show_error (''Command execution error: '' @ str_exn e)
               (emit (Log_error (''Error executing command: '' @ str_exn e)) st))"

definition execute_command :: "platform \<Rightarrow> string \<Rightarrow> app \<Rightarrow> bool \<times> app" where
  "execute_command env command st =
     (case execute_command_try env command st of
        Return b st' \<Rightarrow> (b, st')
      | Raise e st' \<Rightarrow> execute_command_except e st')"

section \<open>The listening session\<close>

text \<open>Lines 281 to 288 of \<open>stop_listening\<close>, which cannot raise.\<close>

definition stop_listening_rest :: "app \<Rightarrow> app" where
  "stop_listening_rest st =
     (let st1 = (case listening_timeout st of
                   None \<Rightarrow> st
                 | Some n \<Rightarrow> (cancel n st)\<lparr>listening_timeout := None\<rparr>)
      in emit (Progress_opacity 0)
           (emit (Control_btn (Emoji Microphone ''Start Listening'') (2, 7, 3, 10))
              (st1\<lparr>is_listening := False\<rparr>)))"

definition stop_listening_try :: "app \<Rightarrow> unit outcome" where
  "stop_listening_try st =
     (case recognizer st of
        None \<Rightarrow> Return () (stop_listening_rest st)
      | Some r \<Rightarrow>
          (case destroy r of
             Some e \<Rightarrow> Raise e st
           | None \<Rightarrow>
               Return () (stop_listening_rest ((emit Recognizer_destroyed st)\<lparr>recognizer := None\<rparr>))))"

definition stop_listening :: "app \<Rightarrow> app" where
  "stop_listening st =
     (case stop_listening_try st of
        Return _ st' \<Rightarrow> st'
      | Raise e st' \<Rightarrow> emit (Log_error (''Error stopping recognition: '' @ str_exn e)) st')"

definition listening_timeout_callback :: "app \<Rightarrow> app" where
  "listening_timeout_callback st =
     stop_listening (show_status (Text ''Listening timeout - please try again'') st)"

definition animate_progress :: "app \<Rightarrow> app" where
  "animate_progress st =
     (if is_listening st
      then (let v = (progress_value st + 10) mod 100
            in snd (schedule_once Animate_progress 200
                      (emit (Progress_value v) (st\<lparr>progress_value := v\<rparr>))))
      else st)"

definition start_listening_try :: "platform \<Rightarrow> app \<Rightarrow> unit outcome" where
  "start_listening_try env st =
     (let st1 = animate_progress
                  (emit (Progress_opacity 1)
                     (show_status (Emoji Microphone ''Listening for your command...'')
                        (emit (Control_btn (Emoji Red_circle ''Listening... (Speak Now)'')
                                 (9, 2, 2, 10))
                           (st\<lparr>is_listening := True\<rparr>))))
      in case createSpeechRecognizer env of
           Inl e \<Rightarrow> Raise e st1
         | Inr r \<Rightarrow>
             (let st2 = st1\<lparr>recognizer := Some r\<rparr>
              in case startListening env of
                   Some e \<Rightarrow> Raise e st2
                 | None \<Rightarrow>
                     (let (n, st3) = schedule_once Listening_timeout_callback 10000
                                       (emit Recognizer_started st2)
                      in Return () (st3\<lparr>listening_timeout := Some n\<rparr>))))"

definition start_listening :: "platform \<Rightarrow> app \<Rightarrow> app" where
  "start_listening env st =
     (if \<not> android env
      then show_status (Text ''Voice recognition only works on Android devices'') st
      else case start_listening_try env st of
             Return _ st' \<Rightarrow> st'
           | Raise e st' \<Rightarrow>
               stop_listening
                 (show_error (''Failed to start voice recognition: '' @ str_exn e)
                    (emit (Log_error (''Failed to start listening: '' @ str_exn e)) st')))"

definition toggle_listening :: "platform \<Rightarrow> app \<Rightarrow> app" where
  "toggle_listening env st =
     (if is_listening st then stop_listening st else start_listening env st)"

section \<open>Processing the results of the recognizer\<close>

text \<open>The loop over the recognition results: it stops at the first command executed.\<close>

fun for_matches :: "platform \<Rightarrow> string list \<Rightarrow> app \<Rightarrow> bool \<times> app" where
  "for_matches env [] st = (False, st)"
| "for_matches env (m # ms) st =
     (let command = strip (lower m);
          (executed, st') =
             execute_command env command
               (emit (Log_info (''Processing command: '' @ [CHR 0x27] @ command @ [CHR 0x27])) st)
      in if executed then (True, st') else for_matches env ms st')"

definition no_speech :: "app \<Rightarrow> app" where
  "no_speech st = stop_listening (show_status (Text ''No speech detected - please try again'') st)"

definition not_recognized :: ui_text where
  "not_recognized =
     Text (''Command not recognized. Try: '' @ [CHR 0x27] @ ''Turn on'' @ [CHR 0x27] @ '', ''
           @ [CHR 0x27] @ ''Turn off'' @ [CHR 0x27] @ '', or ''
           @ [CHR 0x27] @ ''Change to [color]'' @ [CHR 0x27])"

definition process_speech_try :: "platform \<Rightarrow> results \<Rightarrow> app \<Rightarrow> unit outcome" where
  "process_speech_try env results st =
     (if \<not> android env then Return () st
      else case getStringArrayList results of
        Inl e \<Rightarrow> Raise e st
      | Inr None \<Rightarrow> Return () (no_speech st)
      | Inr (Some []) \<Rightarrow> Return () (no_speech st)
      | Inr (Some (m # ms)) \<Rightarrow>
          (let (command_executed, st') = for_matches env (m # ms) st
           in Return () (if \<not> command_executed then show_status not_recognized st' else st')))"

text \<open>The \<open>finally\<close> clause schedules \<open>stop_listening\<close> on every path.\<close>

definition process_speech :: "platform \<Rightarrow> results \<Rightarrow> app \<Rightarrow> app" where
  "process_speech env results st =
     snd (schedule_once Stop_listening 1000
            (case process_speech_try env results st of
               Return _ st' \<Rightarrow> st'
             | Raise e st' \<Rightarrow>
                 show_error (''Speech processing error: '' @ str_exn e)
                   (emit (Log_error (''Error processing speech: '' @ str_exn e)) st')))"

definition handle_recognition_error :: "string \<Rightarrow> app \<Rightarrow> app" where
  "handle_recognition_error error_message st =
     snd (schedule_once Stop_listening 1000
            (show_error (''Voice recognition error: '' @ error_message) st))"

section \<open>The recognition listener\<close>

text \<open>\<open>str\<close> of a Python integer.\<close>

fun str_nat :: "nat \<Rightarrow> string" where
  "str_nat n =
     (if n < 10 then [char_of (48 + n)] else str_nat (n div 10) @ [char_of (48 + n mod 10)])"

definition str_int :: "int \<Rightarrow> string" where
  "str_int i = (if i < 0 then CHR ''-'' # str_nat (nat (- i)) else str_nat (nat i))"

definition error_messages :: "(int \<times> string) list" where
  "error_messages =
     [(1, ''Network timeout''), (2, ''Network error''), (3, ''Audio error''),
      (4, ''Server error''), (5, ''Client error''), (6, ''Speech timeout''),
      (7, ''No match found''), (8, ''Recognition service busy''),
      (9, ''Insufficient permissions'')]"

text \<open>
  A \<open>VoiceRecognitionListener\<close> holds two callbacks; \<open>callback\<close> may raise, which
  \<open>onResults\<close> catches.
\<close>

definition onResults ::
  "(results \<Rightarrow> app \<Rightarrow> unit outcome) \<Rightarrow> (string \<Rightarrow> app \<Rightarrow> app) \<Rightarrow> results \<Rightarrow> app \<Rightarrow> app" where
  "onResults callback error_callback results st =
     (case callback results st of
        Return _ st' \<Rightarrow> st'
      | Raise e st' \<Rightarrow>
          error_callback (''Processing error: '' @ str_exn e)
            (emit (Log_error (''VoiceRecognition: Error in onResults: '' @ str_exn e)) st'))"

definition onError :: "(string \<Rightarrow> app \<Rightarrow> app) \<Rightarrow> int \<Rightarrow> app \<Rightarrow> app" where
  "onError error_callback error st =
     (let message = (case map_of error_messages error of
                       Some m \<Rightarrow> m
                     | None \<Rightarrow> ''Unknown error: '' @ str_int error)
      in error_callback message (emit (Log_error (''VoiceRecognition: '' @ message)) st))"

section \<open>Start, stop and the event loop\<close>

definition no_ir_blaster :: "app \<Rightarrow> app" where
  "no_ir_blaster st =
     emit Control_btn_disabled (show_error ''No IR blaster detected on this device'' st)"

definition on_start_except :: "exn \<Rightarrow> app \<Rightarrow> app" where
  "on_start_except e st =
     emit Control_btn_disabled (show_error (''IR initialization failed: '' @ str_exn e) st)"

definition on_start :: "platform \<Rightarrow> app \<Rightarrow> app" where
  "on_start env st =
     (if android env
      then (case getSystemService env of
              Inl e \<Rightarrow> on_start_except e st
            | Inr m \<Rightarrow>
                (let st1 = st\<lparr>ir_manager := m\<rparr>
                 in case m of
                      None \<Rightarrow> no_ir_blaster st1
                    | Some s \<Rightarrow>
                        (case hasIrEmitter s of
                           Inl e \<Rightarrow> on_start_except e st1
                         | Inr b \<Rightarrow>
                             if \<not> b then no_ir_blaster st1
                             else emit (Log_info ''IR blaster initialized successfully'') st1)))
      else show_status (Text ''Running in desktop mode - IR features disabled'') st)"

definition on_stop :: "app \<Rightarrow> app" where
  "on_stop st = stop_listening st"

text \<open>The Kivy clock runs a pending event: it leaves the clock and its callback is called.\<close>

definition run_callback :: "callback \<Rightarrow> app \<Rightarrow> app" where
  "run_callback cb st =
     (case cb of
        Listening_timeout_callback \<Rightarrow> listening_timeout_callback st
      | Animate_progress \<Rightarrow> animate_progress st
      | Stop_listening \<Rightarrow> stop_listening st)"

definition fire :: "nat \<Rightarrow> app \<Rightarrow> app" where
  "fire n st =
     (case find (\<lambda>ev. fst ev = n) (clock st) of
        None \<Rightarrow> st
      | Some (_, cb, _) \<Rightarrow> run_callback cb (st\<lparr>clock := filter (\<lambda>ev. fst ev \<noteq> n) (clock st)\<rparr>))"

text \<open>
  What can happen to the running application: the start of the application, a press of the
  control button (a call of \<open>toggle_listening\<close>), a result or an error of the recognizer (the listener that
  \<open>start_listening\<close> creates has \<open>process_speech\<close> and \<open>handle_recognition_error\<close> as its
  callbacks), a pending clock event that becomes due, and the end of the application.
\<close>

datatype input = On_start | Press | On_results results | On_error int | Tick nat | On_stop

definition step :: "platform \<Rightarrow> input \<Rightarrow> app \<Rightarrow> app" where
  "step env i st =
     (case i of
        On_start \<Rightarrow> on_start env st
      | Press \<Rightarrow> toggle_listening env st
      | On_results results \<Rightarrow>
          onResults (\<lambda>r s. Return () (process_speech env r s)) handle_recognition_error results st
      | On_error error \<Rightarrow> onError handle_recognition_error error st
      | Tick n \<Rightarrow> fire n st
      | On_stop \<Rightarrow> on_stop st)"

text \<open>A run of the application; the platform may answer differently at each input.\<close>

fun run :: "(platform \<times> input) list \<Rightarrow> app \<Rightarrow> app" where
  "run [] st = st"
| "run ((env, i) # rest) st = run rest (step env i st)"

section \<open>The classifier, stated on its own\<close>

text \<open>
  The patterns of a group, whether a command matches some pattern of a group, and the match
  of the first pattern of a list, in the order of the list, that matches.
\<close>

definition patterns :: "string \<Rightarrow> pattern list" where
  "patterns k = (case map_of COMMAND_PATTERNS k of Some ps \<Rightarrow> ps | None \<Rightarrow> [])"

definition matches_group :: "string \<Rightarrow> string \<Rightarrow> bool" where
  "matches_group k command = list_ex (\<lambda>p. re_search p command \<noteq> None) (patterns k)"

fun first_match :: "pattern list \<Rightarrow> string \<Rightarrow> match option" where
  "first_match [] command = None"
| "first_match (p # ps) command =
     (case re_search p command of Some m \<Rightarrow> Some m | None \<Rightarrow> first_match ps command)"

text \<open>
  The classifier as the specification describes it: regular expressions in three groups
  and a dictionary lookup, giving the infrared code of the command, if any.
\<close>

definition classify :: "string \<Rightarrow> int list option" where
  "classify command =
     (if matches_group ''on'' command then Some on_code
      else if matches_group ''off'' command then Some off_code
      else case first_match (patterns ''color'') command of
             Some (Match (Some g)) \<Rightarrow> map_of COLOR_MAP (lower g)
           | _ \<Rightarrow> None)"

text \<open>The body of the loop over the colour patterns, once a pattern has matched.\<close>

definition color_branch :: "platform \<Rightarrow> match \<Rightarrow> app \<Rightarrow> bool outcome" where
  "color_branch env m st =
     (case group1 m of
        None \<Rightarrow> Raise AttributeError st
      | Some g \<Rightarrow>
          (case map_of COLOR_MAP (lower g) of
             Some code \<Rightarrow>
               Return True
                 (send_ir_code env code (''Changing to '' @ upper (lower g))
                    (update_info_panel (st\<lparr>current_color := lower g\<rparr>)))
           | None \<Rightarrow> Return False (show_status (not_available (lower g)) st)))"

section \<open>Example platforms\<close>

text \<open>An Android device whose infrared emitter and speech recognizer work.\<close>

definition working_ir :: ir_service where
  "working_ir = \<lparr> hasIrEmitter = Inr True, transmit = (\<lambda>f p. None) \<rparr>"

definition phone :: platform where
  "phone = \<lparr> android = True, getSystemService = Inr (Some working_ir),
             createSpeechRecognizer = Inr \<lparr> destroy = None \<rparr>, startListening = None \<rparr>"

text \<open>The same device with a recognizer whose \<open>destroy\<close> raises.\<close>

definition failing_recognizer :: recognizer where
  "failing_recognizer = \<lparr> destroy = Some (Exception ''destroy failed'') \<rparr>"

definition stuck_phone :: platform where
  "stuck_phone = phone\<lparr>createSpeechRecognizer := Inr failing_recognizer\<rparr>"


section \<open>Observing a run\<close>

text \<open>The infrared transmissions among some events, in order.\<close>

fun transmits :: "event list \<Rightarrow> (int \<times> int list) list" where
  "transmits [] = []"
| "transmits (Transmit f s # evs) = (f, s) # transmits evs"
| "transmits (_ # evs) = transmits evs"

text \<open>The pattern lists of the program: the two literals and the values of \<open>COLOR_MAP\<close>.\<close>

definition codes :: "int list list" where
  "codes = on_code # off_code # map snd COLOR_MAP"

text \<open>
  \<open>grows P st st'\<close>: the trace of \<open>st'\<close> is the trace of \<open>st\<close> followed by further
  events, and every transmission among these satisfies \<open>P\<close>.
\<close>

definition grows :: "(int \<times> int list \<Rightarrow> bool) \<Rightarrow> app \<Rightarrow> app \<Rightarrow> bool" where
  "grows P st st' =
     (take (length (trace st)) (trace st') = trace st
      \<and> list_all P (transmits (drop (length (trace st)) (trace st'))))"

text \<open>The current colour is a key of \<open>COLOR_MAP\<close>.\<close>

definition color_ok :: "app \<Rightarrow> bool" where
  "color_ok st = (map_of COLOR_MAP (current_color st) \<noteq> None)"

text \<open>\<open>recognizer.destroy()\<close> would raise in this state.\<close>

definition destroy_raises :: "app \<Rightarrow> bool" where
  "destroy_raises st = (case recognizer st of None \<Rightarrow> False | Some r \<Rightarrow> destroy r \<noteq> None)"


text \<open>
  A transmission (frequency, signal) made of a pattern list of the program whose first
  element is 38000.
\<close>

definition carrier_code :: "int \<times> int list \<Rightarrow> bool" where
  "carrier_code t = (fst t = 38000 \<and> fst t # snd t \<in> set codes)"


text \<open>
  The events by which the program reports a failure: an error line in the log, an error
  message in the status label (a cross mark, in red) and the scheduling of
  \<open>stop_listening\<close>.
\<close>

fun is_report :: "event \<Rightarrow> bool" where
  "is_report (Log_error m) = True"
| "is_report (Status_label (Emoji Cross_mark m) c) = (c = (9, 2, 2, 10))"
| "is_report (Scheduled n Stop_listening d) = True"
| "is_report _ = False"

text \<open>
  \<open>reported st st'\<close>: from \<open>st\<close> to \<open>st'\<close> the program has done nothing but report.
  No attribute of the application has changed, the trace has grown, by events that report
  a failure only, and the clock has at most gained callbacks that stop the listening
  session.
\<close>

definition reported :: "app \<Rightarrow> app \<Rightarrow> bool" where
  "reported st st' =
     (ir_manager st' = ir_manager st \<and> recognizer st' = recognizer st
      \<and> is_listening st' = is_listening st \<and> listening_timeout st' = listening_timeout st
      \<and> current_color st' = current_color st \<and> progress_value st' = progress_value st
      \<and> take (length (trace st)) (trace st') = trace st
      \<and> drop (length (trace st)) (trace st') \<noteq> []
      \<and> list_all is_report (drop (length (trace st)) (trace st'))
      \<and> take (length (clock st)) (clock st') = clock st
      \<and> list_all (\<lambda>ev. snd ev = (Stop_listening, 1000)) (drop (length (clock st)) (clock st')))"


section \<open>Lemmas on matching and on the loops\<close>

declare str_nat.simps [simp del]

lemma eq_char_of_iff: "c = char_of n \<longleftrightarrow> take_bit 8 n = (of_char c :: nat)"
  using char_of_eq_iff[of n c] by (simp add: eq_commute)

lemmas eval_defs = matches_group_def patterns_def COMMAND_PATTERNS_def COLOR_MAP_def lits_def
  lit_eq_def lower_char_def lower_def is_word_def char_of_eq_iff eq_char_of_iff

lemma map_of_patterns:
  "map_of COMMAND_PATTERNS ''on'' = Some (patterns ''on'')"
  "map_of COMMAND_PATTERNS ''off'' = Some (patterns ''off'')"
  "map_of COMMAND_PATTERNS ''color'' = Some (patterns ''color'')"
  by (simp_all add: patterns_def COMMAND_PATTERNS_def)

lemma for_on_eq:
  "for_on env c ps st =
     (if list_ex (\<lambda>p. re_search p c \<noteq> None) ps
      then Some (Return True (send_ir_code env on_code ''Turning lights ON'' st)) else None)"
  by (induction ps) auto

lemma for_off_eq:
  "for_off env c ps st =
     (if list_ex (\<lambda>p. re_search p c \<noteq> None) ps
      then Some (Return True (send_ir_code env off_code ''Turning lights OFF'' st)) else None)"
  by (induction ps) auto

lemma for_color_eq:
  "for_color env c ps st = map_option (\<lambda>m. color_branch env m st) (first_match ps c)"
  by (induction ps) (auto simp: color_branch_def Let_def split: option.splits)

lemma execute_command_try_eq:
  "execute_command_try env c st =
     (if matches_group ''on'' c
      then Return True (send_ir_code env on_code ''Turning lights ON'' st)
      else if matches_group ''off'' c
      then Return True (send_ir_code env off_code ''Turning lights OFF'' st)
      else case first_match (patterns ''color'') c of
             None \<Rightarrow> Return False st
           | Some m \<Rightarrow> color_branch env m st)"
  by (simp add: execute_command_try_def map_of_patterns for_on_eq for_off_eq for_color_eq
      matches_group_def split: option.splits)

lemma first_some_map_Some:
  "first_some (map f xs) = Some m \<Longrightarrow> \<exists>x \<in> set xs. f x = Some m"
proof (induction xs)
  case Nil
  then show ?case by simp
next
  case (Cons a xs)
  then show ?case by (cases "f a") auto
qed

text \<open>A match of a pattern that contains the group \<open>(\w+)\<close> has captured a word.\<close>

lemma match_here_group:
  "match_here p s g = Some m \<Longrightarrow> WordGroup \<in> set p \<or> g \<noteq> None \<Longrightarrow> group1 m \<noteq> None"
proof (induction p s g rule: match_here.induct)
  case (1 s g)
  then show ?case by auto
next
  case (2 p ps s g)
  then show ?case by (auto split: list.splits if_splits)
next
  case (3 w ps s g)
  then show ?case by (auto split: option.splits)
next
  case (4 ps s g)
  from "4.prems"(1)
  have "\<exists>n \<in> set (rev [1 ..< Suc (length (takeWhile is_word s))]).
          match_here ps (drop n s) (Some (take n s)) = Some m"
    by (intro first_some_map_Some) simp
  then obtain n where n: "n \<in> set (rev [1 ..< Suc (length (takeWhile is_word s))])"
    and m: "match_here ps (drop n s) (Some (take n s)) = Some m"
    by blast
  from "4.IH"[OF n m] show ?case by simp
qed

lemma re_search_group:
  "re_search p s = Some m \<Longrightarrow> WordGroup \<in> set p \<Longrightarrow> group1 m \<noteq> None"
  by (induction p s rule: re_search.induct) (auto split: option.splits dest: match_here_group)

lemma first_match_Some:
  "first_match ps c = Some m \<Longrightarrow> \<exists>p \<in> set ps. re_search p c = Some m"
  by (induction ps) (auto split: option.splits)

lemma first_match_None:
  "first_match ps c = None \<longleftrightarrow> (\<forall>p \<in> set ps. re_search p c = None)"
  by (induction ps) (auto split: option.splits)

lemma color_patterns_group: "p \<in> set (patterns ''color'') \<Longrightarrow> WordGroup \<in> set p"
  by (auto simp: patterns_def COMMAND_PATTERNS_def)

lemma first_match_color_group:
  "first_match (patterns ''color'') c = Some m \<Longrightarrow> \<exists>g. m = Match (Some g)"
  by (cases m) (auto dest!: first_match_Some dest: re_search_group color_patterns_group)


lemma execute_command_classify:
  "fst (execute_command env c st) \<longleftrightarrow> classify c \<noteq> None"
  by (auto simp: execute_command_def execute_command_try_eq classify_def color_branch_def
      execute_command_except_def split: option.splits match.splits)

section \<open>Lemmas on the trace\<close>

lemmas msg_defs = show_status_def show_success_def show_error_def update_info_panel_def emit_def

lemmas run_defs = execute_command_def execute_command_try_eq color_branch_def send_ir_code_def
  send_ir_code_try_def msg_defs on_code_def off_code_def phone_def working_ir_def init_def
  upper_def upper_char_def not_available_def

lemma transmits_append [simp]: "transmits (xs @ ys) = transmits xs @ transmits ys"
  by (induction xs rule: transmits.induct) auto

lemma send_ir_code_attrs:
  "ir_manager (send_ir_code env p a st) = ir_manager st"
  "recognizer (send_ir_code env p a st) = recognizer st"
  "is_listening (send_ir_code env p a st) = is_listening st"
  "listening_timeout (send_ir_code env p a st) = listening_timeout st"
  "current_color (send_ir_code env p a st) = current_color st"
  "progress_value (send_ir_code env p a st) = progress_value st"
  "clock (send_ir_code env p a st) = clock st"
  "next_event (send_ir_code env p a st) = next_event st"
  by (auto simp: send_ir_code_def send_ir_code_try_def msg_defs
      split: option.splits sum.splits list.splits)

text \<open>\<open>send_ir_code\<close> transmits at most once, and then the pattern it was given.\<close>

lemma send_ir_code_trace:
  "\<exists>evs. trace (send_ir_code env p a st) = trace st @ evs
         \<and> (transmits evs = [] \<or> (\<exists>f s. p = f # s \<and> transmits evs = [(f, s)]))"
  by (auto simp: send_ir_code_def send_ir_code_try_def msg_defs
      split: option.splits sum.splits list.splits)

lemma classify_codes: "classify c = Some p \<Longrightarrow> p \<in> set codes"
  by (auto simp: classify_def codes_def split: if_splits option.splits match.splits
      dest: map_of_SomeD intro: rev_image_eqI)

lemma codes_carrier: "p \<in> set codes \<Longrightarrow> p \<noteq> [] \<and> hd p = 38000"
  by (auto simp: codes_def on_code_def off_code_def COLOR_MAP_def)

text \<open>\<open>execute_command\<close> transmits at most once, and then the code of the classifier.\<close>

lemma execute_command_trace:
  "\<exists>evs. trace (snd (execute_command env c st)) = trace st @ evs
         \<and> (transmits evs = []
             \<or> (\<exists>f s. classify c = Some (f # s) \<and> transmits evs = [(f, s)]))"
proof -
  consider (on) "matches_group ''on'' c"
    | (off) "\<not> matches_group ''on'' c" "matches_group ''off'' c"
    | (none) "\<not> matches_group ''on'' c" "\<not> matches_group ''off'' c"
        "first_match (patterns ''color'') c = None"
    | (color) g where "\<not> matches_group ''on'' c" "\<not> matches_group ''off'' c"
        "first_match (patterns ''color'') c = Some (Match (Some g))"
    by (cases "first_match (patterns ''color'') c") (auto dest: first_match_color_group)
  then show ?thesis
  proof cases
    case on
    with send_ir_code_trace[of env on_code "''Turning lights ON''" st] show ?thesis
      by (auto simp: execute_command_def execute_command_try_eq classify_def)
  next
    case off
    with send_ir_code_trace[of env off_code "''Turning lights OFF''" st] show ?thesis
      by (auto simp: execute_command_def execute_command_try_eq classify_def)
  next
    case none
    then show ?thesis
      by (auto simp: execute_command_def execute_command_try_eq)
  next
    case color
    show ?thesis
    proof (cases "map_of COLOR_MAP (lower g)")
      case None
      with color show ?thesis
        by (auto simp: execute_command_def execute_command_try_eq color_branch_def msg_defs)
    next
      case (Some code)
      let ?st = "update_info_panel (st\<lparr>current_color := lower g\<rparr>)"
      let ?info = "Info_label (join '', '' (map fst COLOR_MAP)) (lower g)"
      from send_ir_code_trace[of env code "''Changing to '' @ upper (lower g)" ?st]
      obtain evs where e: "trace (send_ir_code env code (''Changing to '' @ upper (lower g)) ?st)
            = trace ?st @ evs"
        and t: "transmits evs = [] \<or> (\<exists>f s. code = f # s \<and> transmits evs = [(f, s)])"
        by blast
      have c: "classify c = Some code"
        using color Some by (simp add: classify_def)
      have "trace (snd (execute_command env c st)) = trace st @ (?info # evs)"
        using color Some e
        by (simp add: execute_command_def execute_command_try_eq color_branch_def msg_defs)
      moreover have "transmits (?info # evs) = []
             \<or> (\<exists>f s. classify c = Some (f # s) \<and> transmits (?info # evs) = [(f, s)])"
        using t c by auto
      ultimately show ?thesis by blast
    qed
  qed
qed

lemma execute_command_attrs:
  "ir_manager (snd (execute_command env c st)) = ir_manager st"
  "recognizer (snd (execute_command env c st)) = recognizer st"
  "is_listening (snd (execute_command env c st)) = is_listening st"
  "listening_timeout (snd (execute_command env c st)) = listening_timeout st"
  "progress_value (snd (execute_command env c st)) = progress_value st"
  "clock (snd (execute_command env c st)) = clock st"
  "next_event (snd (execute_command env c st)) = next_event st"
  by (auto simp: execute_command_def execute_command_try_eq color_branch_def send_ir_code_attrs
      execute_command_except_def msg_defs split: option.splits)

lemma grows_iff:
  "grows P st st' \<longleftrightarrow> (\<exists>evs. trace st' = trace st @ evs \<and> list_all P (transmits evs))"
proof
  assume "grows P st st'"
  then have "trace st' = trace st @ drop (length (trace st)) (trace st')"
    and "list_all P (transmits (drop (length (trace st)) (trace st')))"
    by (auto simp: grows_def) (metis append_take_drop_id)
  then show "\<exists>evs. trace st' = trace st @ evs \<and> list_all P (transmits evs)" by blast
next
  assume "\<exists>evs. trace st' = trace st @ evs \<and> list_all P (transmits evs)"
  then show "grows P st st'" by (auto simp: grows_def)
qed

lemma grows_refl [simp]: "grows P st st"
  by (simp add: grows_iff)

lemma grows_emit: "transmits [e] = [] \<Longrightarrow> grows P st st' \<Longrightarrow> grows P st (emit e st')"
  by (auto simp: grows_iff emit_def)

lemma grows_msgs:
  "grows P st st' \<Longrightarrow> grows P st (show_status t st')"
  "grows P st st' \<Longrightarrow> grows P st (show_success t st')"
  "grows P st st' \<Longrightarrow> grows P st (show_error m st')"
  "grows P st st' \<Longrightarrow> grows P st (update_info_panel st')"
  by (auto simp: grows_iff msg_defs)

lemma grows_upd:
  "grows P st st' \<Longrightarrow> grows P st (st'\<lparr>ir_manager := a\<rparr>)"
  "grows P st st' \<Longrightarrow> grows P st (st'\<lparr>recognizer := b\<rparr>)"
  "grows P st st' \<Longrightarrow> grows P st (st'\<lparr>is_listening := c\<rparr>)"
  "grows P st st' \<Longrightarrow> grows P st (st'\<lparr>listening_timeout := d\<rparr>)"
  "grows P st st' \<Longrightarrow> grows P st (st'\<lparr>current_color := e\<rparr>)"
  "grows P st st' \<Longrightarrow> grows P st (st'\<lparr>progress_value := f\<rparr>)"
  "grows P st st' \<Longrightarrow> grows P st (st'\<lparr>clock := g\<rparr>)"
  "grows P st st' \<Longrightarrow> grows P st (st'\<lparr>next_event := h\<rparr>)"
  by (auto simp: grows_iff)

lemma grows_schedule_once: "grows P st st' \<Longrightarrow> grows P st (snd (schedule_once cb d st'))"
  by (auto simp: grows_iff schedule_once_def emit_def Let_def)

lemma grows_stop_listening: "grows P st st' \<Longrightarrow> grows P st (stop_listening st')"
  by (auto simp: grows_iff stop_listening_def stop_listening_try_def stop_listening_rest_def
      cancel_def emit_def Let_def split: option.splits)

lemma grows_animate_progress: "grows P st st' \<Longrightarrow> grows P st (animate_progress st')"
  by (auto simp: grows_iff animate_progress_def schedule_once_def emit_def Let_def)

lemma grows_start_listening: "grows P st st' \<Longrightarrow> grows P st (start_listening env st')"
  by (auto simp: start_listening_def start_listening_try_def Let_def case_prod_beta
      split: sum.splits option.splits
      intro!: grows_stop_listening grows_msgs grows_emit grows_animate_progress
        grows_schedule_once grows_upd)

lemma grows_execute_command:
  "grows P st st' \<Longrightarrow> (\<And>f s. classify c = Some (f # s) \<Longrightarrow> P (f, s))
   \<Longrightarrow> grows P st (snd (execute_command env c st'))"
  using execute_command_trace[of env c st'] by (auto simp: grows_iff)

lemma grows_for_matches:
  "grows P st st' \<Longrightarrow>
   (\<And>m f s. m \<in> set ms \<Longrightarrow> classify (strip (lower m)) = Some (f # s) \<Longrightarrow> P (f, s))
   \<Longrightarrow> grows P st (snd (for_matches env ms st'))"
proof (induction ms arbitrary: st')
  case Nil
  then show ?case by simp
next
  case (Cons m ms)
  let ?c = "strip (lower m)"
  let ?s1 = "emit (Log_info (''Processing command: '' @ [CHR 0x27] @ ?c @ [CHR 0x27])) st'"
  have 1: "grows P st (snd (execute_command env ?c ?s1))"
    using Cons.prems by (intro grows_execute_command grows_emit) auto
  show ?case
  proof (cases "fst (execute_command env ?c ?s1)")
    case True
    with 1 show ?thesis by (simp add: Let_def case_prod_beta)
  next
    case False
    have "grows P st (snd (for_matches env ms (snd (execute_command env ?c ?s1))))"
      using Cons.prems(2) by (intro Cons.IH[OF 1]) auto
    with False show ?thesis by (simp add: Let_def case_prod_beta)
  qed
qed

lemma grows_process_speech:
  "grows P st st' \<Longrightarrow>
   (\<And>ms m f s. getStringArrayList results = Inr (Some ms) \<Longrightarrow> m \<in> set ms \<Longrightarrow>
       classify (strip (lower m)) = Some (f # s) \<Longrightarrow> P (f, s))
   \<Longrightarrow> grows P st (process_speech env results st')"
proof -
  assume g: "grows P st st'"
    and P: "\<And>ms m f s. getStringArrayList results = Inr (Some ms) \<Longrightarrow> m \<in> set ms \<Longrightarrow>
       classify (strip (lower m)) = Some (f # s) \<Longrightarrow> P (f, s)"
  have m: "grows P st (snd (for_matches env ms st'))"
    if "getStringArrayList results = Inr (Some ms)" for ms
    using g P[OF that] by (rule grows_for_matches)
  show ?thesis
    unfolding process_speech_def process_speech_try_def no_speech_def
    using g m
    by (auto simp: Let_def case_prod_beta simp del: for_matches.simps
        split: sum.splits option.splits list.splits
        intro!: grows_schedule_once grows_msgs grows_emit grows_stop_listening)
qed

lemma grows_handle_recognition_error:
  "grows P st st' \<Longrightarrow> grows P st (handle_recognition_error m st')"
  by (auto simp: handle_recognition_error_def intro!: grows_schedule_once grows_msgs)

lemma grows_on_start: "grows P st st' \<Longrightarrow> grows P st (on_start env st')"
  by (auto simp: on_start_def no_ir_blaster_def on_start_except_def Let_def
      split: sum.splits option.splits intro!: grows_msgs grows_emit grows_upd)

lemma grows_fire: "grows P st st' \<Longrightarrow> grows P st (fire n st')"
  by (auto simp: fire_def run_callback_def listening_timeout_callback_def
      split: option.splits callback.splits
      intro!: grows_stop_listening grows_animate_progress grows_msgs grows_upd)

lemma grows_step:
  "grows P st st' \<Longrightarrow> (\<And>p. p \<in> set codes \<Longrightarrow> P (hd p, tl p)) \<Longrightarrow> grows P st (step env i st')"
proof -
  assume g: "grows P st st'" and P: "\<And>p. p \<in> set codes \<Longrightarrow> P (hd p, tl p)"
  have c: "\<And>c f s. classify c = Some (f # s) \<Longrightarrow> P (f, s)"
    using P classify_codes by fastforce
  show ?thesis
  proof (cases i)
    case On_start
    with g show ?thesis by (simp add: step_def grows_on_start)
  next
    case Press
    with g show ?thesis
      by (simp add: step_def toggle_listening_def grows_start_listening grows_stop_listening)
  next
    case (On_results r)
    with g c show ?thesis
      by (simp add: step_def onResults_def grows_process_speech)
  next
    case (On_error e)
    with g show ?thesis
      by (auto simp: step_def onError_def Let_def intro!: grows_handle_recognition_error grows_emit)
  next
    case (Tick n)
    with g show ?thesis by (simp add: step_def grows_fire)
  next
    case On_stop
    with g show ?thesis by (simp add: step_def on_stop_def grows_stop_listening)
  qed
qed



section \<open>Lemmas on the attributes\<close>

lemma for_matches_attrs:
  "ir_manager (snd (for_matches env ms st)) = ir_manager st"
  "recognizer (snd (for_matches env ms st)) = recognizer st"
  "is_listening (snd (for_matches env ms st)) = is_listening st"
  "listening_timeout (snd (for_matches env ms st)) = listening_timeout st"
  "progress_value (snd (for_matches env ms st)) = progress_value st"
  "clock (snd (for_matches env ms st)) = clock st"
  "next_event (snd (for_matches env ms st)) = next_event st"
  by (induction ms arbitrary: st;
      simp add: Let_def case_prod_beta execute_command_attrs emit_def)+

lemma execute_command_color:
  "color_ok st \<Longrightarrow> color_ok (snd (execute_command env c st))"
  by (auto simp: execute_command_def execute_command_try_eq color_branch_def send_ir_code_attrs
      execute_command_except_def msg_defs color_ok_def split: option.splits)

lemma for_matches_color:
  "color_ok st \<Longrightarrow> color_ok (snd (for_matches env ms st))"
proof (induction ms arbitrary: st)
  case Nil
  then show ?case by simp
next
  case (Cons m ms)
  let ?s1 = "emit (Log_info (''Processing command: '' @ [CHR 0x27] @ strip (lower m) @ [CHR 0x27])) st"
  have "color_ok ?s1" using Cons.prems by (simp add: color_ok_def emit_def)
  then have "color_ok (snd (execute_command env (strip (lower m)) ?s1))"
    by (rule execute_command_color)
  with Cons.IH show ?case by (simp add: Let_def case_prod_beta)
qed

lemma stop_listening_color [simp]: "current_color (stop_listening st) = current_color st"
  by (auto simp: stop_listening_def stop_listening_try_def stop_listening_rest_def
      cancel_def emit_def Let_def split: option.splits)

lemma animate_progress_color [simp]: "current_color (animate_progress st) = current_color st"
  by (auto simp: animate_progress_def schedule_once_def emit_def Let_def)

lemma start_listening_color [simp]: "current_color (start_listening env st) = current_color st"
  by (auto simp: start_listening_def start_listening_try_def Let_def case_prod_beta
      schedule_once_def msg_defs split: sum.splits option.splits)

lemma handle_recognition_error_color [simp]:
  "current_color (handle_recognition_error m st) = current_color st"
  by (simp add: handle_recognition_error_def schedule_once_def msg_defs Let_def)

lemma on_start_color [simp]: "current_color (on_start env st) = current_color st"
  by (auto simp: on_start_def no_ir_blaster_def on_start_except_def Let_def msg_defs
      split: sum.splits option.splits)

lemma fire_color [simp]: "current_color (fire n st) = current_color st"
  by (auto simp: fire_def run_callback_def listening_timeout_callback_def msg_defs
      split: option.splits callback.splits)

lemma process_speech_color: "color_ok st \<Longrightarrow> color_ok (process_speech env results st)"
proof -
  assume c: "color_ok st"
  have m: "color_ok (snd (for_matches env ms st))" for ms
    using c by (rule for_matches_color)
  show ?thesis
    unfolding process_speech_def process_speech_try_def no_speech_def
    using c m
    by (auto simp: Let_def case_prod_beta color_ok_def schedule_once_def msg_defs
        simp del: for_matches.simps split: sum.splits option.splits list.splits)
qed

lemma color_ok_same: "current_color st' = current_color st \<Longrightarrow> color_ok st \<Longrightarrow> color_ok st'"
  by (simp add: color_ok_def)

lemma step_color: "color_ok st \<Longrightarrow> color_ok (step env i st)"
proof (cases i)
  case (On_results r)
  assume "color_ok st"
  with On_results show ?thesis
    by (simp add: step_def onResults_def process_speech_color)
qed (auto simp: step_def onError_def on_stop_def toggle_listening_def Let_def emit_def
      elim!: color_ok_same[rotated])

lemma run_color: "color_ok st \<Longrightarrow> color_ok (run inputs st)"
  by (induction inputs arbitrary: st) (auto simp: step_color)

lemma stop_listening_listening: "is_listening (stop_listening st) \<Longrightarrow> is_listening st"
  by (auto simp: stop_listening_def stop_listening_try_def stop_listening_rest_def
      cancel_def emit_def Let_def split: option.splits)

lemma animate_progress_listening [simp]:
  "is_listening (animate_progress st) = is_listening st"
  by (auto simp: animate_progress_def schedule_once_def emit_def Let_def)

lemma handle_recognition_error_listening [simp]:
  "is_listening (handle_recognition_error m st) = is_listening st"
  by (simp add: handle_recognition_error_def schedule_once_def msg_defs Let_def)

lemma on_start_listening [simp]: "is_listening (on_start env st) = is_listening st"
  by (auto simp: on_start_def no_ir_blaster_def on_start_except_def Let_def msg_defs
      split: sum.splits option.splits)

lemma process_speech_listening:
  "is_listening (process_speech env results st) \<Longrightarrow> is_listening st"
  unfolding process_speech_def process_speech_try_def no_speech_def
  by (auto simp: Let_def case_prod_beta schedule_once_def msg_defs for_matches_attrs
      simp del: for_matches.simps split: sum.splits option.splits list.splits if_splits
      dest!: stop_listening_listening)

lemma fire_listening: "is_listening (fire n st) \<Longrightarrow> is_listening st"
  by (auto simp: fire_def run_callback_def listening_timeout_callback_def msg_defs
      split: option.splits callback.splits dest!: stop_listening_listening)

section \<open>Lemmas on the clock\<close>

lemma stop_listening_clock: "length (clock (stop_listening st)) \<le> length (clock st)"
  by (auto simp: stop_listening_def stop_listening_try_def stop_listening_rest_def
      cancel_def emit_def Let_def split: option.splits)

lemma animate_progress_clock: "length (clock (animate_progress st)) \<le> Suc (length (clock st))"
  by (auto simp: animate_progress_def schedule_once_def emit_def Let_def)

lemma start_listening_success:
  "android env \<Longrightarrow> createSpeechRecognizer env = Inr r \<Longrightarrow> startListening env = None \<Longrightarrow>
   clock (start_listening env st)
     = clock st @ [(next_event st, Animate_progress, 200),
                   (Suc (next_event st), Listening_timeout_callback, 10000)]"
  by (simp add: start_listening_def start_listening_try_def animate_progress_def
      schedule_once_def msg_defs Let_def)

lemma start_listening_try_clock:
  "case start_listening_try env st of
     Return _ s \<Rightarrow> length (clock s) \<le> length (clock st) + 2
   | Raise e s \<Rightarrow> length (clock s) \<le> Suc (length (clock st))"
  by (simp add: start_listening_try_def animate_progress_def schedule_once_def msg_defs Let_def
      split: sum.splits option.splits)

lemma start_listening_clock:
  "length (clock (start_listening env st)) \<le> length (clock st) + 2"
proof (cases "android env")
  case False
  then show ?thesis by (simp add: start_listening_def msg_defs)
next
  case True
  show ?thesis
  proof (cases "start_listening_try env st")
    case (Return u s)
    with True start_listening_try_clock[where env = env and st = st] show ?thesis
      by (simp add: start_listening_def)
  next
    case (Raise e s)
    let ?s = "show_error (''Failed to start voice recognition: '' @ str_exn e)
                (emit (Log_error (''Failed to start listening: '' @ str_exn e)) s)"
    have "length (clock (stop_listening ?s)) \<le> length (clock ?s)"
      by (rule stop_listening_clock)
    moreover have "clock ?s = clock s" by (simp add: msg_defs)
    moreover have "length (clock s) \<le> Suc (length (clock st))"
      using Raise start_listening_try_clock[where env = env and st = st] by simp
    ultimately show ?thesis using True Raise by (simp add: start_listening_def)
  qed
qed

lemma process_speech_clock:
  "length (clock (process_speech env results st)) \<le> Suc (length (clock st))"
proof -
  have "length (clock (stop_listening (show_status t st))) \<le> length (clock st)" for t
    using stop_listening_clock[of "show_status t st"] by (simp add: msg_defs)
  then show ?thesis
    unfolding process_speech_def process_speech_try_def no_speech_def
    by (auto simp: Let_def case_prod_beta schedule_once_def msg_defs for_matches_attrs
        simp del: for_matches.simps split: sum.splits option.splits list.splits)
qed

lemma handle_recognition_error_clock:
  "length (clock (handle_recognition_error m st)) = Suc (length (clock st))"
  by (simp add: handle_recognition_error_def schedule_once_def msg_defs Let_def)

lemma on_start_clock: "clock (on_start env st) = clock st"
  by (auto simp: on_start_def no_ir_blaster_def on_start_except_def Let_def msg_defs
      split: sum.splits option.splits)

lemma fire_clock: "length (clock (fire n st)) \<le> Suc (length (clock st))"
proof (cases "find (\<lambda>ev. fst ev = n) (clock st)")
  case None
  then show ?thesis by (simp add: fire_def)
next
  case (Some ev)
  obtain k cb d where ev: "ev = (k, cb, d)" by (cases ev)
  let ?st = "st\<lparr>clock := filter (\<lambda>ev. fst ev \<noteq> n) (clock st)\<rparr>"
  have f: "length (clock ?st) \<le> length (clock st)" by simp
  have "length (clock (run_callback cb ?st)) \<le> Suc (length (clock ?st))"
  proof (cases cb)
    case Listening_timeout_callback
    then show ?thesis
      using stop_listening_clock[of "show_status (Text ''Listening timeout - please try again'') ?st"]
      by (simp add: run_callback_def listening_timeout_callback_def msg_defs)
  next
    case Animate_progress
    then show ?thesis using animate_progress_clock[of ?st] by (simp add: run_callback_def)
  next
    case Stop_listening
    then show ?thesis using stop_listening_clock[of ?st] by (simp add: run_callback_def)
  qed
  with f Some ev show ?thesis by (simp add: fire_def del: length_filter_le)
qed

lemma step_clock: "length (clock (step env i st)) \<le> length (clock st) + 2"
proof (cases i)
  case On_start
  then show ?thesis by (simp add: step_def on_start_clock)
next
  case Press
  then show ?thesis
    using stop_listening_clock[of st] start_listening_clock[of env st]
    by (simp add: step_def toggle_listening_def)
next
  case (On_results r)
  then show ?thesis using process_speech_clock[of env r st] by (simp add: step_def onResults_def)
next
  case (On_error e)
  then show ?thesis
    by (simp add: step_def onError_def Let_def handle_recognition_error_def schedule_once_def
        msg_defs)
next
  case (Tick n)
  then show ?thesis using fire_clock[of n st] by (simp add: step_def)
next
  case On_stop
  then show ?thesis using stop_listening_clock[of st] by (simp add: step_def on_stop_def)
qed

section \<open>Lemmas on failures\<close>




lemma handle_recognition_error_reported: "reported st (handle_recognition_error m st)"
  by (simp add: handle_recognition_error_def reported_def schedule_once_def msg_defs Let_def)


text \<open>
  At the start of the application a missing infrared emitter is reported in the same way;
  \<open>on_start\<close> then also disables the control button.
\<close>

lemma on_start_no_emitter:
  "android env \<Longrightarrow> getSystemService env = Inr None \<Longrightarrow>
   on_start env st
     = emit Control_btn_disabled (show_error ''No IR blaster detected on this device''
         (st\<lparr>ir_manager := None\<rparr>))"
  by (simp add: on_start_def no_ir_blaster_def)


section \<open>The command classifier\<close>

text \<open>
  Claim C1. \<open>execute_command\<close> is regular-expression matching against the fixed
  vocabulary plus a dictionary lookup: for every command and in every state it returns
  \<open>True\<close> exactly when the classifier finds a code, hence only if the command matches a
  pattern of the group \<open>on\<close>, a pattern of the group \<open>off\<close>, or a pattern of the group
  \<open>color\<close> whose captured word, lowercased, is a key of \<open>COLOR_MAP\<close>. For a command that
  matches no pattern of any group it returns \<open>False\<close> and leaves the whole state as it
  was, so nothing is transmitted. This holds for every command, hence for the lowercased
  and stripped transcripts that \<open>process_speech\<close> passes.
\<close>

theorem C1_classifier:
  "(fst (execute_command env command st) \<longleftrightarrow> classify command \<noteq> None)
   \<and> (fst (execute_command env command st) \<longrightarrow>
        matches_group ''on'' command \<or> matches_group ''off'' command
        \<or> (\<exists>p \<in> set (patterns ''color''). \<exists>g.
              re_search p command = Some (Match (Some g)) \<and> map_of COLOR_MAP (lower g) \<noteq> None))
   \<and> (\<not> matches_group ''on'' command \<and> \<not> matches_group ''off'' command
        \<and> \<not> matches_group ''color'' command \<longrightarrow>
        execute_command env command st = (False, st))"
proof (intro conjI impI)
  show "fst (execute_command env command st) \<longleftrightarrow> classify command \<noteq> None"
    by (rule execute_command_classify)
next
  assume "fst (execute_command env command st)"
  then have c: "classify command \<noteq> None"
    by (simp add: execute_command_classify)
  show "matches_group ''on'' command \<or> matches_group ''off'' command
        \<or> (\<exists>p \<in> set (patterns ''color''). \<exists>g.
              re_search p command = Some (Match (Some g)) \<and> map_of COLOR_MAP (lower g) \<noteq> None)"
  proof (cases "matches_group ''on'' command \<or> matches_group ''off'' command")
    case True
    then show ?thesis by blast
  next
    case False
    with c obtain g where g: "first_match (patterns ''color'') command = Some (Match (Some g))"
      and k: "map_of COLOR_MAP (lower g) \<noteq> None"
      by (auto simp: classify_def split: option.splits match.splits)
    from first_match_Some[OF g] k show ?thesis by blast
  qed
next
  assume h: "\<not> matches_group ''on'' command \<and> \<not> matches_group ''off'' command
        \<and> \<not> matches_group ''color'' command"
  then have "first_match (patterns ''color'') command = None"
    by (simp add: first_match_None matches_group_def list_ex_iff)
  with h show "execute_command env command st = (False, st)"
    by (simp add: execute_command_def execute_command_try_eq)
qed

theorem C1_classifier_witness:
  "fst (execute_command phone ''turn on'' init) \<and> matches_group ''on'' ''turn on''
   \<and> \<not> matches_group ''on'' ''hello'' \<and> \<not> matches_group ''off'' ''hello''
   \<and> \<not> matches_group ''color'' ''hello''
   \<and> execute_command phone ''hello'' init = (False, init)"
proof -
  have a: "matches_group ''on'' ''turn on''"
    by (simp add: eval_defs)
  then have b: "classify ''turn on'' \<noteq> None"
    by (simp add: classify_def)
  have c: "\<not> matches_group ''on'' ''hello'' \<and> \<not> matches_group ''off'' ''hello''
           \<and> \<not> matches_group ''color'' ''hello''"
    by (simp add: eval_defs)
  from C1_classifier[of phone "''turn on''" init] b
  have d: "fst (execute_command phone ''turn on'' init)" by blast
  from C1_classifier[of phone "''hello''" init] c
  have e: "execute_command phone ''hello'' init = (False, init)" by blast
  from a c d e show ?thesis by blast
qed


section \<open>The priority of the groups\<close>

text \<open>
  Claim C8. The groups are checked in the order on, off, color: for every command that
  matches a pattern of the group \<open>on\<close>, whatever patterns of the groups \<open>off\<close> and
  \<open>color\<close> it matches as well, \<open>execute_command\<close> passes the ON code to \<open>send_ir_code\<close>
  and returns \<open>True\<close>; the result does not depend on the later groups. On a device whose
  infrared emitter works, \<open>send_ir_code\<close> then transmits the ON code: carrier 38000 and
  the six remaining numbers as the signal.
\<close>

theorem C8_priority:
  "(matches_group ''on'' command \<longrightarrow>
      execute_command env command st
        = (True, send_ir_code env on_code ''Turning lights ON'' st))
   \<and> (android env \<and> ir_manager st = Some m \<and> hasIrEmitter m = Inr True
        \<and> transmit m 38000 [9000, 4500, 562, 562, 562, 562] = None \<longrightarrow>
      trace (send_ir_code env on_code ''Turning lights ON'' st)
        = trace st @ [Transmit 38000 [9000, 4500, 562, 562, 562, 562],
                      Status_label (Emoji Check_mark ''Turning lights ON'') (2, 8, 2, 10),
                      Log_info ''IR signal sent: Turning lights ON''])"
  by (simp add: execute_command_def execute_command_try_eq send_ir_code_def
      send_ir_code_try_def on_code_def show_success_def emit_def)

theorem C8_priority_witness:
  "matches_group ''on'' ''turn on turn off'' \<and> matches_group ''off'' ''turn on turn off''
   \<and> matches_group ''on'' ''lights on make it red''
   \<and> matches_group ''color'' ''lights on make it red''
   \<and> fst (execute_command phone ''turn on turn off'' (init\<lparr>ir_manager := Some working_ir\<rparr>))
   \<and> trace (snd (execute_command phone ''turn on turn off''
               (init\<lparr>ir_manager := Some working_ir\<rparr>)))
       = [Transmit 38000 [9000, 4500, 562, 562, 562, 562],
          Status_label (Emoji Check_mark ''Turning lights ON'') (2, 8, 2, 10),
          Log_info ''IR signal sent: Turning lights ON'']"
proof -
  let ?st = "init\<lparr>ir_manager := Some working_ir\<rparr>"
  have a: "matches_group ''on'' ''turn on turn off''" by (simp add: eval_defs)
  have b: "matches_group ''off'' ''turn on turn off''" by (simp add: eval_defs)
  have c: "matches_group ''on'' ''lights on make it red''" by (simp add: eval_defs)
  have d: "matches_group ''color'' ''lights on make it red''" by (simp add: eval_defs)
  have e: "android phone \<and> ir_manager ?st = Some working_ir
        \<and> hasIrEmitter working_ir = Inr True
        \<and> transmit working_ir 38000 [9000, 4500, 562, 562, 562, 562] = None"
    by (simp add: phone_def working_ir_def init_def)
  from C8_priority[of "''turn on turn off''" phone ?st working_ir] a e
  have "execute_command phone ''turn on turn off'' ?st
        = (True, send_ir_code phone on_code ''Turning lights ON'' ?st)"
    and "trace (send_ir_code phone on_code ''Turning lights ON'' ?st)
        = trace ?st @ [Transmit 38000 [9000, 4500, 562, 562, 562, 562],
                      Status_label (Emoji Check_mark ''Turning lights ON'') (2, 8, 2, 10),
                      Log_info ''IR signal sent: Turning lights ON'']"
    by blast+
  with a b c d show ?thesis by (simp add: init_def)
qed

section \<open>Colour commands\<close>

text \<open>
  Claim C2, as it stands, fails: the command \<open>turn on change to red\<close> matches the colour
  pattern \<open>change to (\w+)\<close> with the captured word \<open>red\<close>, a key of \<open>COLOR_MAP\<close>, but
  the group \<open>on\<close> is checked first: the ON code is transmitted and the current colour
  stays \<open>white\<close>.
\<close>

theorem C2_counterexample:
  "re_search (patterns ''color'' ! 0) ''turn on change to red'' = Some (Match (Some ''red''))
   \<and> map_of COLOR_MAP ''red'' = Some [38000, 9000, 4500, 562, 562, 1687, 562]
   \<and> current_color (snd (execute_command phone ''turn on change to red''
         (init\<lparr>ir_manager := Some working_ir\<rparr>))) = ''white''
   \<and> trace (snd (execute_command phone ''turn on change to red''
         (init\<lparr>ir_manager := Some working_ir\<rparr>)))
       = [Transmit 38000 [9000, 4500, 562, 562, 562, 562],
          Status_label (Emoji Check_mark ''Turning lights ON'') (2, 8, 2, 10),
          Log_info ''IR signal sent: Turning lights ON'']"
  by (simp add: eval_defs run_defs)

text \<open>
  Claim C2, amended. For every command that matches no pattern of the groups \<open>on\<close> and
  \<open>off\<close> and for which the first colour pattern that matches, in the order of the list,
  captures a word whose lowercase form \<open>c\<close> is a key of \<open>COLOR_MAP\<close>:
  \<open>execute_command\<close> sets \<open>current_color\<close> to \<open>c\<close>, updates the info panel, passes
  exactly the list \<open>COLOR_MAP[c]\<close> to \<open>send_ir_code\<close> and returns \<open>True\<close>; the current
  colour of the resulting state is \<open>c\<close>.
\<close>

theorem C2_color_command:
  "\<not> matches_group ''on'' command \<and> \<not> matches_group ''off'' command
   \<and> first_match (patterns ''color'') command = Some (Match (Some g))
   \<and> map_of COLOR_MAP (lower g) = Some code \<longrightarrow>
   execute_command env command st
     = (True, send_ir_code env code (''Changing to '' @ upper (lower g))
                (update_info_panel (st\<lparr>current_color := lower g\<rparr>)))
   \<and> current_color (snd (execute_command env command st)) = lower g"
  by (simp add: execute_command_def execute_command_try_eq color_branch_def
      send_ir_code_attrs update_info_panel_def emit_def)

theorem C2_color_command_witness:
  "\<not> matches_group ''on'' ''Make it PINK'' \<and> \<not> matches_group ''off'' ''Make it PINK''
   \<and> first_match (patterns ''color'') ''Make it PINK'' = Some (Match (Some ''PINK''))
   \<and> map_of COLOR_MAP (lower ''PINK'') = Some [38000, 9000, 4500, 1687, 562, 562, 1687]
   \<and> fst (execute_command phone ''Make it PINK'' (init\<lparr>ir_manager := Some working_ir\<rparr>))
   \<and> current_color (snd (execute_command phone ''Make it PINK''
         (init\<lparr>ir_manager := Some working_ir\<rparr>))) = ''pink''
   \<and> transmits (trace (snd (execute_command phone ''Make it PINK''
         (init\<lparr>ir_manager := Some working_ir\<rparr>))))
       = [(38000, [9000, 4500, 1687, 562, 562, 1687])]"
proof -
  let ?st = "init\<lparr>ir_manager := Some working_ir\<rparr>"
  let ?code = "[38000, 9000, 4500, 1687, 562, 562, 1687] :: int list"
  have h: "\<not> matches_group ''on'' ''Make it PINK'' \<and> \<not> matches_group ''off'' ''Make it PINK''
     \<and> first_match (patterns ''color'') ''Make it PINK'' = Some (Match (Some ''PINK''))
     \<and> map_of COLOR_MAP (lower ''PINK'') = Some ?code"
    by (simp add: eval_defs)
  from C2_color_command[of "''Make it PINK''" "''PINK''" ?code phone ?st] h
  have e: "execute_command phone ''Make it PINK'' ?st
     = (True, send_ir_code phone ?code (''Changing to '' @ upper (lower ''PINK''))
                (update_info_panel (?st\<lparr>current_color := lower ''PINK''\<rparr>)))"
    and c: "current_color (snd (execute_command phone ''Make it PINK'' ?st)) = lower ''PINK''"
    by blast+
  have l: "lower ''PINK'' = ''pink''"
    by (simp add: lower_def lower_char_def char_of_eq_iff)
  have "transmits (trace (send_ir_code phone ?code (''Changing to '' @ upper (lower ''PINK''))
                (update_info_panel (?st\<lparr>current_color := lower ''PINK''\<rparr>))))
       = [(38000, [9000, 4500, 1687, 562, 562, 1687])]"
    by (simp add: send_ir_code_def send_ir_code_try_def msg_defs phone_def working_ir_def
        init_def)
  with h e c l show ?thesis by simp
qed

text \<open>
  Claim C9, as it stands, fails: the command \<open>turn on make it foo\<close> matches the colour
  pattern \<open>make it (\w+)\<close> with the captured word \<open>foo\<close>, which is no key of
  \<open>COLOR_MAP\<close>, but the group \<open>on\<close> is checked first: \<open>execute_command\<close> returns
  \<open>True\<close> and the ON code is transmitted.
\<close>

theorem C9_counterexample:
  "re_search (patterns ''color'' ! 2) ''turn on make it foo'' = Some (Match (Some ''foo''))
   \<and> map_of COLOR_MAP (lower ''foo'') = None
   \<and> fst (execute_command phone ''turn on make it foo'' (init\<lparr>ir_manager := Some working_ir\<rparr>))
   \<and> trace (snd (execute_command phone ''turn on make it foo''
         (init\<lparr>ir_manager := Some working_ir\<rparr>)))
       = [Transmit 38000 [9000, 4500, 562, 562, 562, 562],
          Status_label (Emoji Check_mark ''Turning lights ON'') (2, 8, 2, 10),
          Log_info ''IR signal sent: Turning lights ON'']"
  by (simp add: eval_defs run_defs)

text \<open>
  Claim C9, amended. For every command that matches no pattern of the groups \<open>on\<close> and
  \<open>off\<close> and for which the first colour pattern that matches, in the order of the list,
  captures a word whose lowercase form is no key of \<open>COLOR_MAP\<close>: \<open>execute_command\<close>
  returns \<open>False\<close> at once; all it does is show the status message that the colour is
  not available: nothing is transmitted and \<open>current_color\<close> is unchanged. The later
  colour patterns are not tried: there is a command for which a later pattern captures a
  key of \<open>COLOR_MAP\<close> and which is rejected all the same.
\<close>

theorem C9_unknown_color:
  "(\<not> matches_group ''on'' command \<and> \<not> matches_group ''off'' command
    \<and> first_match (patterns ''color'') command = Some (Match (Some g))
    \<and> map_of COLOR_MAP (lower g) = None \<longrightarrow>
    execute_command env command st = (False, show_status (not_available (lower g)) st)
    \<and> current_color (snd (execute_command env command st)) = current_color st
    \<and> trace (snd (execute_command env command st))
        = trace st @ [Status_label (not_available (lower g)) (10, 10, 10, 10)])
   \<and> (\<exists>c p w. p \<in> set (patterns ''color'') \<and> re_search p c = Some (Match (Some w))
              \<and> map_of COLOR_MAP (lower w) \<noteq> None
              \<and> \<not> fst (execute_command env c st))"
proof (intro conjI impI)
  have "re_search (patterns ''color'' ! 2) ''change to foo make it red''
          = Some (Match (Some ''red''))"
    and "patterns ''color'' ! 2 \<in> set (patterns ''color'')"
    and "map_of COLOR_MAP (lower ''red'') \<noteq> None"
    and "\<not> fst (execute_command env ''change to foo make it red'' st)"
    by (simp_all add: eval_defs execute_command_def execute_command_try_eq color_branch_def)
  then show "\<exists>c p w. p \<in> set (patterns ''color'') \<and> re_search p c = Some (Match (Some w))
              \<and> map_of COLOR_MAP (lower w) \<noteq> None
              \<and> \<not> fst (execute_command env c st)"
    by blast
qed (simp_all add: execute_command_def execute_command_try_eq color_branch_def
      show_status_def emit_def)

theorem C9_unknown_color_witness:
  "\<not> matches_group ''on'' ''change to foo make it red''
   \<and> \<not> matches_group ''off'' ''change to foo make it red''
   \<and> first_match (patterns ''color'') ''change to foo make it red'' = Some (Match (Some ''foo''))
   \<and> map_of COLOR_MAP (lower ''foo'') = None
   \<and> \<not> fst (execute_command phone ''change to foo make it red''
              (init\<lparr>ir_manager := Some working_ir\<rparr>))
   \<and> current_color (snd (execute_command phone ''change to foo make it red''
         (init\<lparr>ir_manager := Some working_ir\<rparr>))) = ''white''
   \<and> trace (snd (execute_command phone ''change to foo make it red''
         (init\<lparr>ir_manager := Some working_ir\<rparr>)))
       = [Status_label (not_available ''foo'') (10, 10, 10, 10)]"
proof -
  let ?st = "init\<lparr>ir_manager := Some working_ir\<rparr>"
  let ?c = "''change to foo make it red''"
  have h: "\<not> matches_group ''on'' ?c \<and> \<not> matches_group ''off'' ?c
     \<and> first_match (patterns ''color'') ?c = Some (Match (Some ''foo''))
     \<and> map_of COLOR_MAP (lower ''foo'') = None"
    by (simp add: eval_defs)
  from C9_unknown_color[of ?c "''foo''" phone ?st] h
  have "execute_command phone ?c ?st = (False, show_status (not_available (lower ''foo'')) ?st)"
    and "current_color (snd (execute_command phone ?c ?st)) = current_color ?st"
    and "trace (snd (execute_command phone ?c ?st))
        = trace ?st @ [Status_label (not_available (lower ''foo'')) (10, 10, 10, 10)]"
    by blast+
  moreover have "lower ''foo'' = ''foo''"
    by (simp add: lower_def lower_char_def)
  ultimately show ?thesis using h by (simp add: init_def)
qed

section \<open>The current colour\<close>

text \<open>
  Claim C10. \<open>current_color\<close> is always a key of \<open>COLOR_MAP\<close>: it is so in the initial
  state (\<open>white\<close>), every input that the application handles keeps it so, whatever the
  platform answers, and hence it is so after every run from the initial state.
\<close>

theorem C10_current_color:
  "color_ok init \<and> (color_ok st \<longrightarrow> color_ok (step env i st)) \<and> color_ok (run inputs init)"
proof -
  have "color_ok init" by (simp add: color_ok_def init_def COLOR_MAP_def)
  then show ?thesis by (simp add: step_color run_color)
qed


theorem C10_current_color_witness:
  "color_ok init
   \<and> color_ok (step phone (On_results (Bundle (Inr (Some [''Make it PINK ''])))) init)
   \<and> current_color (step phone (On_results (Bundle (Inr (Some [''Make it PINK ''])))) init)
        = ''pink''
   \<and> color_ok (run [(phone, On_start), (phone, Press),
                     (phone, On_results (Bundle (Inr (Some [''Make it PINK ''])))) ] init)"
proof -
  let ?i = "On_results (Bundle (Inr (Some [''Make it PINK ''])))"
  have a: "color_ok init" by (simp add: color_ok_def init_def COLOR_MAP_def)
  have s: "strip (lower ''Make it PINK '') = ''make it pink''"
    by (simp add: strip_def lower_def lower_char_def is_space_def char_of_eq_iff)
  have m: "\<not> matches_group ''on'' ''make it pink'' \<and> \<not> matches_group ''off'' ''make it pink''
     \<and> first_match (patterns ''color'') ''make it pink'' = Some (Match (Some ''pink''))
     \<and> map_of COLOR_MAP (lower ''pink'') = Some [38000, 9000, 4500, 1687, 562, 562, 1687]"
    by (simp add: eval_defs)
  have l: "lower ''pink'' = ''pink''" by (simp add: lower_def lower_char_def)
  have b: "current_color (step phone ?i init) = ''pink''"
    using m
    by (simp add: step_def onResults_def process_speech_def process_speech_try_def s Let_def
        execute_command_def execute_command_try_eq color_branch_def send_ir_code_attrs l
        schedule_once_def msg_defs phone_def)
  from C10_current_color[of init phone ?i
      "[(phone, On_start), (phone, Press), (phone, ?i)]"] a b
  show ?thesis by simp
qed

section \<open>The recognizer session\<close>

text \<open>
  Claim C7, as it stands, fails: \<open>stop_listening\<close> catches what
  \<open>recognizer.destroy()\<close> raises, logs it and returns normally, having skipped the
  assignments after the call. With a recognizer whose \<open>destroy\<close> raises, the state
  after \<open>start_listening\<close> and then \<open>stop_listening\<close> still has \<open>is_listening\<close> set,
  the recognizer and the listening timeout.
\<close>

theorem C7_counterexample:
  "is_listening (stop_listening (start_listening stuck_phone init))
   \<and> recognizer (stop_listening (start_listening stuck_phone init)) = Some failing_recognizer
   \<and> listening_timeout (stop_listening (start_listening stuck_phone init)) = Some 1"
  by (simp add: stop_listening_def stop_listening_try_def start_listening_def
      start_listening_try_def stuck_phone_def phone_def failing_recognizer_def init_def
      animate_progress_def schedule_once_def msg_defs Let_def)

text \<open>
  Claim C7, amended. After a call of \<open>stop_listening\<close> in which
  \<open>recognizer.destroy()\<close> does not raise, \<open>recognizer\<close> and \<open>listening_timeout\<close> are
  \<open>None\<close> and \<open>is_listening\<close> is \<open>False\<close>, whatever the state before.
  \<open>start_listening\<close> is the only operation that sets \<open>is_listening\<close>: no input other
  than a press of the control button turns it on, and a press calls \<open>stop_listening\<close>
  when the application is listening and \<open>start_listening\<close> when it is not.
\<close>

theorem C7_session:
  "(\<not> destroy_raises st \<longrightarrow>
      recognizer (stop_listening st) = None \<and> listening_timeout (stop_listening st) = None
      \<and> \<not> is_listening (stop_listening st))
   \<and> (i \<noteq> Press \<and> is_listening (step env i st) \<longrightarrow> is_listening st)
   \<and> (is_listening st \<longrightarrow> step env Press st = stop_listening st)
   \<and> (\<not> is_listening st \<longrightarrow> step env Press st = start_listening env st)"
proof (intro conjI impI)
  assume "\<not> destroy_raises st"
  then show "recognizer (stop_listening st) = None"
    and "listening_timeout (stop_listening st) = None"
    and "\<not> is_listening (stop_listening st)"
    by (auto simp: destroy_raises_def stop_listening_def stop_listening_try_def
        stop_listening_rest_def cancel_def emit_def Let_def split: option.splits)
next
  assume "i \<noteq> Press \<and> is_listening (step env i st)"
  then show "is_listening st"
    by (cases i)
       (auto simp: step_def onResults_def onError_def on_stop_def Let_def emit_def
          dest: process_speech_listening fire_listening stop_listening_listening)
qed (simp_all add: step_def toggle_listening_def)

theorem C7_session_witness:
  "\<not> destroy_raises (start_listening phone init)
   \<and> recognizer (stop_listening (start_listening phone init)) = None
   \<and> listening_timeout (stop_listening (start_listening phone init)) = None
   \<and> \<not> is_listening (stop_listening (start_listening phone init))
   \<and> On_error 7 \<noteq> Press
   \<and> is_listening (step phone (On_error 7) (start_listening phone init))
   \<and> is_listening (start_listening phone init)
   \<and> step phone Press (start_listening phone init) = stop_listening (start_listening phone init)
   \<and> \<not> is_listening init
   \<and> step phone Press init = start_listening phone init"
proof -
  let ?st = "start_listening phone init"
  have l: "is_listening ?st" and d: "\<not> destroy_raises ?st"
    by (simp_all add: start_listening_def start_listening_try_def phone_def init_def
        animate_progress_def schedule_once_def msg_defs Let_def destroy_raises_def)
  have e: "is_listening (step phone (On_error 7) ?st)"
    using l by (simp add: step_def onError_def Let_def emit_def)
  have n: "\<not> is_listening init" by (simp add: init_def)
  from C7_session[of ?st "On_error 7" phone] C7_session[of init Press phone] l d e n
  show ?thesis by simp
qed


section \<open>Timers\<close>

text \<open>
  Claim C6, as it stands, fails: \<open>start_listening\<close> schedules the progress animation
  (from \<open>animate_progress\<close>, after 0.2 s) and the listening timeout (after 10 s), so after
  one press of the control button two timer callbacks are scheduled at once.
\<close>

theorem C6_counterexample:
  "clock (step phone Press init)
     = [(0, Animate_progress, 200), (1, Listening_timeout_callback, 10000)]
   \<and> length (clock (step phone Press init)) = 2"
  by (simp add: step_def toggle_listening_def start_listening_def start_listening_try_def
      animate_progress_def schedule_once_def msg_defs Let_def phone_def init_def)

text \<open>
  Claim C6, amended. The timer callbacks of the program are scheduled on the one Kivy
  clock, and more than one can be scheduled at a time: a \<open>start_listening\<close> that
  succeeds adds two pending callbacks, the progress animation and the listening timeout;
  no input that the application handles leaves more than two further callbacks pending.
\<close>

theorem C6_timers:
  "(android env \<and> createSpeechRecognizer env = Inr r \<and> startListening env = None \<longrightarrow>
      clock (start_listening env st)
        = clock st @ [(next_event st, Animate_progress, 200),
                      (Suc (next_event st), Listening_timeout_callback, 10000)])
   \<and> length (clock (step env i st)) \<le> length (clock st) + 2"
  using step_clock[of env i st] by (simp add: start_listening_success)

theorem C6_timers_witness:
  "android phone \<and> createSpeechRecognizer phone = Inr \<lparr> destroy = None \<rparr>
   \<and> startListening phone = None
   \<and> clock (start_listening phone init)
        = [(0, Animate_progress, 200), (1, Listening_timeout_callback, 10000)]
   \<and> length (clock (step phone Press init)) \<le> 2"
proof -
  have h: "android phone \<and> createSpeechRecognizer phone = Inr \<lparr> destroy = None \<rparr>
   \<and> startListening phone = None"
    by (simp add: phone_def)
  from C6_timers[of phone "\<lparr> destroy = None \<rparr>" init Press] h
  show ?thesis by (simp add: init_def)
qed


section \<open>The infrared patterns\<close>

text \<open>
  Claim C3. Every pattern list of the program (the values of \<open>COLOR_MAP\<close> and the two
  lists for ON and OFF) is a non-empty constant whose first element is the carrier
  frequency 38000. Whenever \<open>execute_command\<close> returns \<open>True\<close> it has called
  \<open>send_ir_code\<close> with one of these lists, the code of the classifier. \<open>send_ir_code\<close>
  transmits at most once, and then with element 0 of its pattern as the frequency and the
  remaining elements as the signal; it does so whenever the emitter is there and
  \<open>transmit\<close> does not raise. Hence every transmission that the application makes on
  any input has frequency 38000 and the rest of one of the pattern lists as its signal.
\<close>

theorem C3_patterns:
  "(\<forall>p \<in> set codes. p \<noteq> [] \<and> hd p = 38000)
   \<and> (fst (execute_command env command st) \<longrightarrow>
        (\<exists>p a st0. p \<in> set codes \<and> classify command = Some p
                  \<and> snd (execute_command env command st) = send_ir_code env p a st0))
   \<and> (\<exists>evs. trace (send_ir_code env p a st) = trace st @ evs
             \<and> (transmits evs = [] \<or> (p \<noteq> [] \<and> transmits evs = [(hd p, tl p)])))
   \<and> (android env \<and> ir_manager st = Some m \<and> hasIrEmitter m = Inr True \<and> p \<noteq> []
        \<and> transmit m (hd p) (tl p) = None \<longrightarrow>
        transmits (trace (send_ir_code env p a st)) = transmits (trace st) @ [(hd p, tl p)])
   \<and> (\<exists>evs. trace (step env i st) = trace st @ evs \<and> list_all carrier_code (transmits evs))"
proof (intro conjI impI ballI)
  fix q assume "q \<in> set codes"
  then show "q \<noteq> []" and "hd q = 38000" by (simp_all add: codes_carrier)
next
  assume x: "fst (execute_command env command st)"
  then have "classify command \<noteq> None" by (simp add: execute_command_classify)
  then obtain q where q: "classify command = Some q" by blast
  then have "q \<in> set codes" by (rule classify_codes)
  moreover have "\<exists>a st0. snd (execute_command env command st) = send_ir_code env q a st0"
    using q
    by (auto simp: execute_command_def execute_command_try_eq classify_def color_branch_def
        split: if_splits option.splits match.splits) blast
  ultimately show "\<exists>p a st0. p \<in> set codes \<and> classify command = Some p
                  \<and> snd (execute_command env command st) = send_ir_code env p a st0"
    using q by blast
next
  from send_ir_code_trace[of env p a st]
  show "\<exists>evs. trace (send_ir_code env p a st) = trace st @ evs
             \<and> (transmits evs = [] \<or> (p \<noteq> [] \<and> transmits evs = [(hd p, tl p)]))"
    by auto
next
  assume "android env \<and> ir_manager st = Some m \<and> hasIrEmitter m = Inr True \<and> p \<noteq> []
        \<and> transmit m (hd p) (tl p) = None"
  then show "transmits (trace (send_ir_code env p a st)) = transmits (trace st) @ [(hd p, tl p)]"
    by (cases p) (simp_all add: send_ir_code_def send_ir_code_try_def msg_defs)
next
  have "grows carrier_code st (step env i st)"
  proof (rule grows_step)
    fix q assume a: "q \<in> set codes"
    from codes_carrier[OF a] have n: "q \<noteq> []" and h: "hd q = 38000" by simp_all
    from n have "hd q # tl q = q" by (rule list.collapse)
    with a h show "carrier_code (hd q, tl q)"
      unfolding carrier_code_def fst_conv snd_conv by (simp only:)
  qed simp
  then show "\<exists>evs. trace (step env i st) = trace st @ evs \<and> list_all carrier_code (transmits evs)"
    by (simp add: grows_iff)
qed


theorem C3_patterns_witness:
  "on_code \<in> set codes \<and> on_code \<noteq> [] \<and> hd on_code = 38000
   \<and> fst (execute_command phone ''lights off'' (init\<lparr>ir_manager := Some working_ir\<rparr>))
   \<and> classify ''lights off'' = Some off_code
   \<and> android phone \<and> hasIrEmitter working_ir = Inr True \<and> off_code \<noteq> []
   \<and> transmit working_ir (hd off_code) (tl off_code) = None
   \<and> transmits (trace (send_ir_code phone off_code ''Turning lights OFF''
                          (init\<lparr>ir_manager := Some working_ir\<rparr>)))
        = [(38000, [9000, 4500, 562, 1687, 1687, 562])]"
proof -
  let ?st = "init\<lparr>ir_manager := Some working_ir\<rparr>"
  note c3 = C3_patterns[of phone "''lights off''" ?st off_code "''Turning lights OFF''"
      working_ir Press]
  have a: "on_code \<in> set codes" by (simp add: codes_def)
  with c3 have b: "on_code \<noteq> [] \<and> hd on_code = 38000" by blast
  have m: "\<not> matches_group ''on'' ''lights off'' \<and> matches_group ''off'' ''lights off''"
    by (simp add: eval_defs)
  then have c: "classify ''lights off'' = Some off_code" by (simp add: classify_def)
  then have x: "fst (execute_command phone ''lights off'' ?st)"
    by (simp add: execute_command_classify)
  have h: "android phone \<and> ir_manager ?st = Some working_ir
      \<and> hasIrEmitter working_ir = Inr True \<and> off_code \<noteq> []
      \<and> transmit working_ir (hd off_code) (tl off_code) = None"
    by (simp add: phone_def working_ir_def init_def off_code_def)
  with c3 have "transmits (trace (send_ir_code phone off_code ''Turning lights OFF'' ?st))
      = transmits (trace ?st) @ [(hd off_code, tl off_code)]"
    by blast
  then have t: "transmits (trace (send_ir_code phone off_code ''Turning lights OFF'' ?st))
      = [(38000, [9000, 4500, 562, 1687, 1687, 562])]"
    by (simp add: init_def off_code_def)
  from a b c x h t show ?thesis by simp
qed

section \<open>The order of processing\<close>




section \<open>Failures\<close>




end
